theory Spec2Isabelle
  imports Main "HOL-Library.Sublist"
begin

section \<open>The parallel build launcher \<^verbatim>\<open>packages/electron_app/build.py\<close>\<close>

text \<open>
  The script has one worker function and an entry point:
  \<^verbatim>\<open>
  def BuildProcess(cmd: str):
      try:
          print(f"BUILDING {cmd}")
          check_call("pwd")
          check_call(cmd)
      except CalledProcessError:
          pass

  if __name__ == "__main__":
      with Pool(cpu_count()-1) as p:
          p.map(BuildProcess, [
              "cp -R dist ../electron_app/dist/renderer",
              "pushd ../web_app && npm run build &&  && popd"
          ])
  \<close>
  Everything it does is a call into Python's standard library (\<^verbatim>\<open>print\<close>,
  \<^verbatim>\<open>subprocess.check_call\<close>, \<^verbatim>\<open>multiprocessing.Pool\<close>), so the embedding has two
  layers: the library calls, modelled after CPython 3 on a POSIX host and parameterised
  by what the host answers, and the two pieces of the script written over them.
\<close>

subsection \<open>Exceptions, values, events\<close>

text \<open>
  The exception classes that the calls of the script can raise. Only
  \<^verbatim>\<open>CalledProcessError\<close> carries data that matters here: the return code and the command.
\<close>

datatype pyexc =
    CalledProcessError int string
  | FileNotFoundError
  | PermissionError
  | OSError
  | BrokenPipeError
  | ValueError string
  | ZeroDivisionError

text \<open>\<^verbatim>\<open>isinstance(e, CalledProcessError)\<close>: the test of the \<^verbatim>\<open>except\<close> clause.\<close>

fun is_CalledProcessError :: "pyexc \<Rightarrow> bool" where
  "is_CalledProcessError (CalledProcessError rc c) = True"
| "is_CalledProcessError e = False"

datatype pyval = PyNone | PyInt int

text \<open>
  What a run does, in order.
  \<^item> \<open>Printed s\<close>: \<^verbatim>\<open>print\<close> wrote \<open>s\<close> to standard output at the call.
  \<^item> \<open>Buffered s\<close>: \<^verbatim>\<open>print\<close> put \<open>s\<close> into the buffer of \<^verbatim>\<open>sys.stdout\<close> and nothing was
    written. CPython block-buffers a standard output that is not a terminal, and the
    script never flushes: the text reaches standard output at some later flush, after
    the run, or never, when the worker process is terminated first.
  \<^item> \<open>Popen argv r\<close>: a call of \<^verbatim>\<open>Popen\<close> with an argument vector (\<open>None\<close>: the child was
    created; \<open>Some e\<close>: creating it failed with \<open>e\<close>).
  \<^item> \<open>Reaped argv rc\<close>: a child has been waited for, with its return code.
\<close>

datatype event =
    Printed string
  | Buffered string
  | Popen "string list" "pyexc option"
  | Reaped "string list" int

text \<open>
  The children that a sequence of events leaves running: created and not yet waited
  for. The second argument holds those left by the events before.
\<close>

fun in_flight :: "event list \<Rightarrow> string list list \<Rightarrow> string list list" where
  "in_flight [] acc = acc"
| "in_flight (Popen argv None # tr) acc = in_flight tr (acc @ [argv])"
| "in_flight (Reaped argv rc # tr) acc = in_flight tr (remove1 argv acc)"
| "in_flight (ev # tr) acc = in_flight tr acc"

text \<open>
  The host is an oracle. Given the events of the run so far it says whether a
  \<^verbatim>\<open>print\<close> fails, whether the text of a \<^verbatim>\<open>print\<close> that does not fail stays in the buffer
  of \<^verbatim>\<open>sys.stdout\<close> instead of being written, whether creating a child with a given
  argument vector fails, and what return code waiting for the child gives (\<open>None\<close>: the
  child never exits). Nothing is assumed of these answers, so that a property proved
  for every host holds whatever other processes do in between.
\<close>

record host =
  stdout_write :: "event list \<Rightarrow> string \<Rightarrow> pyexc option"
  stdout_buffered :: "event list \<Rightarrow> string \<Rightarrow> bool"
  exec_child :: "event list \<Rightarrow> string list \<Rightarrow> pyexc option"
  wait_child :: "event list \<Rightarrow> string list \<Rightarrow> int option"

text \<open>
  A piece of Python code takes the events so far and gives an outcome and the events
  extended. The outcome is \<open>None\<close> when the code never returns, \<open>Some (Inl e)\<close> when it
  raises \<open>e\<close> and \<open>Some (Inr v)\<close> when it returns \<open>v\<close>.
\<close>

type_synonym 'a outcome = "(pyexc + 'a) option"
type_synonym 'a prog = "event list \<Rightarrow> 'a outcome \<times> event list"

definition py_return :: "'a \<Rightarrow> 'a prog" where
  "py_return v tr = (Some (Inr v), tr)"

definition py_raise :: "pyexc \<Rightarrow> 'a prog" where
  "py_raise e tr = (Some (Inl e), tr)"

text \<open>Sequencing: the second statement runs only if the first returned.\<close>

definition py_bind :: "'a prog \<Rightarrow> ('a \<Rightarrow> 'b prog) \<Rightarrow> 'b prog" where
  "py_bind m f tr =
     (case m tr of
        (None, tr') \<Rightarrow> (None, tr')
      | (Some (Inl e), tr') \<Rightarrow> (Some (Inl e), tr')
      | (Some (Inr v), tr') \<Rightarrow> f v tr')"

text \<open>
  \<^verbatim>\<open>try: body  except C: handler\<close>: an exception of the body that passes the class
  test runs the handler, any other one propagates.
\<close>

definition try_except :: "'a prog \<Rightarrow> (pyexc \<Rightarrow> bool) \<Rightarrow> 'a prog \<Rightarrow> 'a prog" where
  "try_except body catches handler tr =
     (case body tr of
        (Some (Inl e), tr') \<Rightarrow> (if catches e then handler tr' else (Some (Inl e), tr'))
      | r \<Rightarrow> r)"

subsection \<open>The library calls\<close>

text \<open>
  \<^verbatim>\<open>print(s)\<close> hands \<open>s\<close> and a newline to \<^verbatim>\<open>sys.stdout\<close> and returns \<^verbatim>\<open>None\<close>, or raises.
  There is no \<^verbatim>\<open>flush=True\<close>, so whether the text is written at the call or stays in the
  buffer is the host's matter: a terminal is line-buffered, a pipe or a file is
  block-buffered.
\<close>

definition stdout_event :: "host \<Rightarrow> event list \<Rightarrow> string \<Rightarrow> event" where
  "stdout_event h tr text =
     (if stdout_buffered h tr text then Buffered text else Printed text)"

definition print :: "host \<Rightarrow> string \<Rightarrow> pyval prog" where
  "print h s tr =
     (case stdout_write h tr (s @ [CHR 0x0A]) of
        Some e \<Rightarrow> (Some (Inl e), tr)
      | None \<Rightarrow> (Some (Inr PyNone), tr @ [stdout_event h tr (s @ [CHR 0x0A])]))"

text \<open>
  \<^verbatim>\<open>subprocess.Popen(args, shell=...)\<close> with a string for \<^verbatim>\<open>args\<close>, on POSIX: the string
  becomes the one-element argument vector \<^verbatim>\<open>[args]\<close>, whose first element is the program
  to execute; only with \<^verbatim>\<open>shell=True\<close> is it handed to \<^verbatim>\<open>/bin/sh -c\<close>.
\<close>

definition Popen_argv :: "bool \<Rightarrow> string \<Rightarrow> string list" where
  "Popen_argv shell args = (if shell then [''/bin/sh'', ''-c''] @ [args] else [args])"

text \<open>
  \<^verbatim>\<open>subprocess.call(args)\<close>: create the child (\<^verbatim>\<open>shell\<close> keeps its default
  \<^verbatim>\<open>False\<close>), wait for it, return its return code.
\<close>

definition call :: "host \<Rightarrow> string \<Rightarrow> int prog" where
  "call h args tr =
     (let argv = Popen_argv False args in
      case exec_child h tr argv of
        Some e \<Rightarrow> (Some (Inl e), tr @ [Popen argv (Some e)])
      | None \<Rightarrow>
          (let tr1 = tr @ [Popen argv None] in
           case wait_child h tr1 argv of
             None \<Rightarrow> (None, tr1)
           | Some retcode \<Rightarrow> (Some (Inr retcode), tr1 @ [Reaped argv retcode])))"

text \<open>
  \<^verbatim>\<open>subprocess.check_call(args)\<close>:
  \<^verbatim>\<open>retcode = call(args); if retcode: raise CalledProcessError(retcode, args); return 0\<close>.
\<close>

definition check_call :: "host \<Rightarrow> string \<Rightarrow> int prog" where
  "check_call h args =
     py_bind (call h args) (\<lambda>retcode.
       if retcode \<noteq> 0 then py_raise (CalledProcessError retcode args) else py_return 0)"

subsection \<open>The worker function\<close>

text \<open>The body of the \<^verbatim>\<open>try\<close> block: the three statements in the order of the source.\<close>

definition BuildProcess_try :: "host \<Rightarrow> string \<Rightarrow> unit prog" where
  "BuildProcess_try h cmd =
     py_bind (print h (''BUILDING '' @ cmd)) (\<lambda>_.
     py_bind (check_call h ''pwd'') (\<lambda>_.
     py_bind (check_call h cmd) (\<lambda>_.
     py_return ())))"

text \<open>
  \<^verbatim>\<open>BuildProcess\<close>: the \<^verbatim>\<open>try\<close> block, the handler \<^verbatim>\<open>pass\<close> for
  \<^verbatim>\<open>CalledProcessError\<close>, and the implicit \<^verbatim>\<open>return None\<close> at the end of the function.
\<close>

definition BuildProcess :: "host \<Rightarrow> string \<Rightarrow> pyval prog" where
  "BuildProcess h cmd =
     py_bind (try_except (BuildProcess_try h cmd) is_CalledProcessError (py_return ()))
       (\<lambda>_. py_return PyNone)"

text \<open>The notice that \<^verbatim>\<open>BuildProcess\<close> writes for a command.\<close>

definition notice :: "string \<Rightarrow> string" where
  "notice cmd = ''BUILDING '' @ cmd @ [CHR 0x0A]"

text \<open>The event that the notice of a run leaves on a host, if printing does not fail.\<close>

definition noticed :: "host \<Rightarrow> string \<Rightarrow> event" where
  "noticed h cmd = stdout_event h [] (notice cmd)"

text \<open>
  A host on which every write succeeds and goes through at once (standard output is a
  terminal) and every program can be started and exits: with the return code that
  \<open>table\<close> lists for its argument vector, and with 0 otherwise.
\<close>

definition exits_with :: "(string list \<times> int) list \<Rightarrow> host" where
  "exits_with table =
     \<lparr>stdout_write = (\<lambda>tr s. None),
      stdout_buffered = (\<lambda>tr s. False),
      exec_child = (\<lambda>tr argv. None),
      wait_child = (\<lambda>tr argv. Some (case map_of table argv of None \<Rightarrow> 0 | Some rc \<Rightarrow> rc))\<rparr>"

text \<open>
  An ordinary POSIX host: writes succeed and go through at once (standard output is a
  terminal); the files that can be executed are those in \<open>programs\<close>, and they exit
  with 0; executing any other file name fails with \<^verbatim>\<open>FileNotFoundError\<close>.
\<close>

definition posix_host :: "string list \<Rightarrow> host" where
  "posix_host programs =
     \<lparr>stdout_write = (\<lambda>tr s. None),
      stdout_buffered = (\<lambda>tr s. False),
      exec_child = (\<lambda>tr argv.
        case argv of [] \<Rightarrow> Some FileNotFoundError
        | prog # _ \<Rightarrow> if prog \<in> set programs then None else Some FileNotFoundError),
      wait_child = (\<lambda>tr argv. Some 0)\<rparr>"

text \<open>
  The same host with its standard output redirected to a pipe or a file: block-buffered,
  so that what is printed stays in the buffer.
\<close>

definition block_buffered :: "host \<Rightarrow> host" where
  "block_buffered h = h\<lparr>stdout_buffered := (\<lambda>tr s. True)\<rparr>"

text \<open>The family of hosts in which every application meets the same host.\<close>

definition on_every :: "host \<Rightarrow> nat \<Rightarrow> host" where
  "on_every h i = h"

text \<open>
  The hosts on which nothing but an exit status can go wrong: every \<^verbatim>\<open>print\<close> succeeds
  (written or buffered), every child is created and every child exits.
\<close>

definition children_exit :: "host \<Rightarrow> bool" where
  "children_exit h \<longleftrightarrow>
     (\<forall>tr s. stdout_write h tr s = None) \<and>
     (\<forall>tr argv. exec_child h tr argv = None) \<and>
     (\<forall>tr argv. wait_child h tr argv \<noteq> None)"

subsection \<open>The process pool\<close>

text \<open>
  \<^verbatim>\<open>multiprocessing.Pool(processes)\<close> with an integer argument:
  \<^verbatim>\<open>if processes < 1: raise ValueError("Number of processes must be at least 1")\<close>;
  otherwise the pool holds that number of worker processes.
\<close>

definition Pool :: "int \<Rightarrow> pyexc + nat" where
  "Pool processes =
     (if processes < 1 then Inl (ValueError ''Number of processes must be at least 1'')
      else Inr (nat processes))"

text \<open>
  \<^verbatim>\<open>Pool.map(func, iterable)\<close> cuts the items into chunks and hands each chunk to a worker
  as one task. The chunk size, with \<^verbatim>\<open>chunksize=None\<close>:
  \<^verbatim>\<open>chunksize, extra = divmod(len(iterable), len(self._pool) * 4)\<close>,
  \<^verbatim>\<open>if extra: chunksize += 1\<close>, \<^verbatim>\<open>if len(iterable) == 0: chunksize = 0\<close>.
\<close>

definition map_chunksize :: "nat \<Rightarrow> nat \<Rightarrow> nat" where
  "map_chunksize len procs =
     (if len = 0 then 0
      else if len mod (procs * 4) \<noteq> 0 then len div (procs * 4) + 1
      else len div (procs * 4))"

text \<open>
  \<^verbatim>\<open>Pool._get_tasks\<close>: slices of \<open>n\<close> items, taken from the front until a slice is
  empty.
\<close>

function get_tasks :: "nat \<Rightarrow> 'a list \<Rightarrow> 'a list list" where
  "get_tasks n it = (if take n it = [] then [] else take n it # get_tasks n (drop n it))"
  by pat_completeness auto
termination
  by (relation "measure (\<lambda>(n, it). length it)") (auto simp: take_eq_Nil)

declare get_tasks.simps [simp del]

text \<open>
  \<^verbatim>\<open>mapstar\<close>, the task of one chunk: the worker applies the function to the items of the
  chunk in order, each application in a run of its own, and the first application that
  raises (or never returns) ends the chunk. The second component lists the
  applications made: the item, and the outcome and the events of its run. The function
  receives the position of the item in the input, so that each application can have
  its own host.
\<close>

type_synonym ('a, 'b) application = "'a \<times> 'b outcome \<times> event list"

fun mapstar :: "(nat \<Rightarrow> 'a \<Rightarrow> 'b prog) \<Rightarrow> (nat \<times> 'a) list
    \<Rightarrow> 'b list outcome \<times> ('a, 'b) application list" where
  "mapstar f [] = (Some (Inr []), [])"
| "mapstar f ((i, x) # rest) =
     (case f i x [] of
        (None, tr) \<Rightarrow> (None, [(x, None, tr)])
      | (Some (Inl e), tr) \<Rightarrow> (Some (Inl e), [(x, Some (Inl e), tr)])
      | (Some (Inr v), tr) \<Rightarrow>
          (case mapstar f rest of
             (None, log) \<Rightarrow> (None, (x, Some (Inr v), tr) # log)
           | (Some (Inl e), log) \<Rightarrow> (Some (Inl e), (x, Some (Inr v), tr) # log)
           | (Some (Inr vs), log) \<Rightarrow> (Some (Inr (v # vs)), (x, Some (Inr v), tr) # log)))"

text \<open>The exceptions, and the values, among the outcomes of the chunks.\<close>

fun raised :: "'a outcome list \<Rightarrow> pyexc list" where
  "raised [] = []"
| "raised (Some (Inl e) # rs) = e # raised rs"
| "raised (r # rs) = raised rs"

fun returned :: "'a list outcome list \<Rightarrow> 'a list" where
  "returned [] = []"
| "returned (Some (Inr vs) # rs) = vs @ returned rs"
| "returned (r # rs) = returned rs"

text \<open>
  What a call of \<^verbatim>\<open>Pool.map\<close> comes to. It returns once every chunk has reported; if a
  chunk never finishes it never returns, and nothing is said then of which applications
  were made. If chunks raised, the exception of the one that reported first is raised
  again in the caller (which one that is depends on the schedule, so all are listed);
  otherwise the values are returned in the order of the input.
\<close>

datatype ('a, 'b) dispatch =
    Never_returns
  | Raises "pyexc list" "('a, 'b) application list"
  | Returns "'b list" "('a, 'b) application list"

definition Pool_map :: "nat \<Rightarrow> (nat \<Rightarrow> 'a \<Rightarrow> 'b prog) \<Rightarrow> 'a list \<Rightarrow> ('a, 'b) dispatch" where
  "Pool_map procs f iterable =
     (if procs = 0 then Raises [ZeroDivisionError] []
      else
        let chunksize = map_chunksize (length iterable) procs;
            task_batches = get_tasks chunksize (zip [0..<length iterable] iterable);
            finished = map (mapstar f) task_batches;
            log = concat (map snd finished)
        in if None \<in> set (map fst finished) then Never_returns
           else if raised (map fst finished) \<noteq> [] then Raises (raised (map fst finished)) log
           else Returns (returned (map fst finished)) log)"

text \<open>
  The applications made, the items to which the function was applied, and the value of
  the call.
\<close>

fun applications :: "('a, 'b) dispatch \<Rightarrow> ('a, 'b) application list" where
  "applications Never_returns = []"
| "applications (Raises es log) = log"
| "applications (Returns vs log) = log"

fun attempted :: "('a, 'b) dispatch \<Rightarrow> 'a list option" where
  "attempted Never_returns = None"
| "attempted (Raises es log) = Some (map fst log)"
| "attempted (Returns vs log) = Some (map fst log)"

fun result :: "('a, 'b) dispatch \<Rightarrow> 'b list option" where
  "result (Returns vs log) = Some vs"
| "result d = None"

subsection \<open>The entry point\<close>

definition commands :: "string list" where
  "commands =
     [''cp -R dist ../electron_app/dist/renderer'',
      ''pushd ../web_app && npm run build &&  && popd'']"

text \<open>
  The \<^verbatim>\<open>__main__\<close> block, for a host that reports \<open>cpu_count\<close> processors; \<open>hosts i\<close> is
  the host as the application to the \<open>i\<close>-th command meets it. An exception of the
  pool's constructor ends the script before anything is dispatched. Leaving the
  \<^verbatim>\<open>with\<close> block terminates the pool; \<^verbatim>\<open>map\<close> has come back by then, so this adds no
  event and is left out.
\<close>

definition main :: "int \<Rightarrow> (nat \<Rightarrow> host) \<Rightarrow> pyexc + (string, pyval) dispatch" where
  "main cpu_count hosts =
     (case Pool (cpu_count - 1) of
        Inl e \<Rightarrow> Inl e
      | Inr p \<Rightarrow> Inr (Pool_map p (\<lambda>i. BuildProcess (hosts i)) commands))"

section \<open>Properties of the worker function\<close>

lemmas BuildProcess_defs =
  BuildProcess_def BuildProcess_try_def check_call_def call_def print_def Popen_argv_def
  try_except_def py_bind_def py_return_def py_raise_def notice_def noticed_def Let_def

lemmas host_defs =
  exits_with_def posix_host_def block_buffered_def on_every_def stdout_event_def

text \<open>What \<^verbatim>\<open>print\<close> leaves is neither the creation of a child nor its end.\<close>

lemma stdout_event_simps [simp]:
  "stdout_event h tr s \<noteq> Popen argv r" "Popen argv r \<noteq> stdout_event h tr s"
  "stdout_event h tr s \<noteq> Reaped argv rc" "Reaped argv rc \<noteq> stdout_event h tr s"
  "in_flight (stdout_event h tr s # evs) acc = in_flight evs acc"
  by (simp_all add: stdout_event_def)

text \<open>
  Claim C2. Whenever a child that \<^verbatim>\<open>BuildProcess\<close> has run for a command exited with a
  non-zero status, \<^verbatim>\<open>BuildProcess\<close> returns normally (with \<^verbatim>\<open>None\<close>): it neither raises
  nor fails to return.
\<close>

theorem BuildProcess_nonzero_exit_returns:
  assumes "Reaped [cmd] rc \<in> set (snd (BuildProcess h cmd []))" and "rc \<noteq> 0"
  shows "fst (BuildProcess h cmd []) = Some (Inr PyNone)"
  using assms
  by (auto simp: BuildProcess_defs split: option.splits if_splits)

theorem BuildProcess_nonzero_exit_returns_witness:
  "Reaped [''false''] 1 \<in> set (snd (BuildProcess (exits_with [([''false''], 1)]) ''false'' []))
   \<and> fst (BuildProcess (exits_with [([''false''], 1)]) ''false'' []) = Some (Inr PyNone)"
proof -
  have r: "Reaped [''false''] 1 \<in> set (snd (BuildProcess (exits_with [([''false''], 1)]) ''false'' []))"
    by (simp add: BuildProcess_defs host_defs)
  show ?thesis
    using r BuildProcess_nonzero_exit_returns [OF r] by simp
qed

text \<open>
  Claim C3 (evaluation at the hardcoded command with the dangling \<^verbatim>\<open>&&  &&\<close>). On a POSIX
  host that has \<^verbatim>\<open>pwd\<close>, \<^verbatim>\<open>cp\<close>, \<^verbatim>\<open>npm\<close> and \<^verbatim>\<open>/bin/sh\<close>, the notice is written and the diagnostic
  runs; then \<^verbatim>\<open>Popen\<close> is asked to execute a file whose name is the whole command string,
  which does not exist, and the \<^verbatim>\<open>FileNotFoundError\<close> leaves \<^verbatim>\<open>BuildProcess\<close>: it is not
  swallowed.
\<close>

theorem BuildProcess_malformed_command_raises:
  "BuildProcess (posix_host [''pwd'', ''cp'', ''npm'', ''/bin/sh''])
     ''pushd ../web_app && npm run build &&  && popd'' []
   = (Some (Inl FileNotFoundError),
      [Printed (notice ''pushd ../web_app && npm run build &&  && popd''),
       Popen [''pwd''] None, Reaped [''pwd''] 0,
       Popen [''pushd ../web_app && npm run build &&  && popd''] (Some FileNotFoundError)])"
  by (simp add: BuildProcess_defs host_defs)

text \<open>
  Claim C4 (evaluation at the hardcoded copy command). \<^verbatim>\<open>check_call(cmd)\<close> is called
  without \<^verbatim>\<open>shell=True\<close>, so no shell reads the string: the argument vector is the
  one-element list holding the whole string, the program to execute is a file of that
  name, and on a POSIX host that has \<^verbatim>\<open>pwd\<close>, \<^verbatim>\<open>cp\<close> and \<^verbatim>\<open>/bin/sh\<close> the call raises
  \<^verbatim>\<open>FileNotFoundError\<close> without any child having run the copy.
\<close>

theorem BuildProcess_copy_command_no_shell:
  "BuildProcess (posix_host [''pwd'', ''cp'', ''npm'', ''/bin/sh''])
     ''cp -R dist ../electron_app/dist/renderer'' []
   = (Some (Inl FileNotFoundError),
      [Printed (notice ''cp -R dist ../electron_app/dist/renderer''),
       Popen [''pwd''] None, Reaped [''pwd''] 0,
       Popen [''cp -R dist ../electron_app/dist/renderer''] (Some FileNotFoundError)])"
  by (simp add: BuildProcess_defs host_defs)

text \<open>
  On no host and for no command does \<^verbatim>\<open>BuildProcess\<close> call \<^verbatim>\<open>Popen\<close> with the argument
  vector of a shell invocation; the only argument vectors it uses are \<^verbatim>\<open>["pwd"]\<close> and
  \<^verbatim>\<open>[cmd]\<close>. (The other half of the claim holds: \<^verbatim>\<open>check_call\<close> waits for the child it
  creates, see \<open>BuildProcess_finished_reaps\<close> below.)
\<close>

lemma BuildProcess_argv:
  "Popen argv r \<in> set (snd (BuildProcess h cmd [])) \<Longrightarrow> argv = [''pwd''] \<or> argv = [cmd]"
  by (auto simp: BuildProcess_defs split: option.splits if_splits)

lemma BuildProcess_never_calls_shell:
  "Popen (Popen_argv True cmd) r \<notin> set (snd (BuildProcess h cmd []))"
  by (auto simp: Popen_argv_def dest: BuildProcess_argv)

text \<open>
  Claim C5 as stated fails: on two hosts that differ only in the exit status of the
  diagnostic \<^verbatim>\<open>pwd\<close> (0 on the first, 1 on the second), the target command \<^verbatim>\<open>true\<close> is
  executed on the first and not on the second.
\<close>

theorem diagnostic_status_discarded_counterexample:
  "Popen [''true''] None \<in> set (snd (BuildProcess (exits_with []) ''true'' []))
   \<and> snd (BuildProcess (exits_with [([''pwd''], 1)]) ''true'' []) =
       [Printed (notice ''true''), Popen [''pwd''] None, Reaped [''pwd''] 1]"
  by (simp add: BuildProcess_defs host_defs)

text \<open>
  Claim C5, amended. The value that the diagnostic call returns is discarded, but its
  exit status is not: once the notice is printed (written or buffered, the event \<open>n\<close>)
  and the diagnostic has run and exited with status \<open>rc\<close>, step 3 is run (\<^verbatim>\<open>Popen\<close> is called for the target command) exactly
  when \<open>rc = 0\<close>; when \<open>rc \<noteq> 0\<close> nothing more is done and \<^verbatim>\<open>BuildProcess\<close> returns
  \<^verbatim>\<open>None\<close>.
\<close>

theorem diagnostic_status_gates_target:
  assumes "take 3 (snd (BuildProcess h cmd [])) =
             [n, Popen [''pwd''] None, Reaped [''pwd''] rc]"
  shows "(\<exists>r. Popen [cmd] r \<in> set (drop 3 (snd (BuildProcess h cmd [])))) = (rc = 0)
         \<and> (rc \<noteq> 0 \<longrightarrow> BuildProcess h cmd [] =
               (Some (Inr PyNone),
                [n, Popen [''pwd''] None, Reaped [''pwd''] rc]))"
  using assms
  by (auto simp: BuildProcess_defs split: option.splits if_splits)

theorem diagnostic_status_gates_target_witness:
  "take 3 (snd (BuildProcess (exits_with [([''pwd''], 1)]) ''true'' [])) =
     [Printed (notice ''true''), Popen [''pwd''] None, Reaped [''pwd''] 1]
   \<and> (\<forall>r. Popen [''true''] r \<notin> set (drop 3 (snd (BuildProcess (exits_with [([''pwd''], 1)]) ''true'' []))))
   \<and> BuildProcess (exits_with [([''pwd''], 1)]) ''true'' [] =
       (Some (Inr PyNone), [Printed (notice ''true''), Popen [''pwd''] None, Reaped [''pwd''] 1])"
proof -
  have t: "take 3 (snd (BuildProcess (exits_with [([''pwd''], 1)]) ''true'' [])) =
     [Printed (notice ''true''), Popen [''pwd''] None, Reaped [''pwd''] 1]"
    by (simp add: BuildProcess_defs host_defs)
  show ?thesis
    using t diagnostic_status_gates_target [OF t] by simp
qed

text \<open>
  Claim C6. The handler is selective. An exception raised inside the \<^verbatim>\<open>try\<close> block is
  discarded, and \<^verbatim>\<open>BuildProcess\<close> returns \<^verbatim>\<open>None\<close>, exactly when it is a
  \<^verbatim>\<open>CalledProcessError\<close>; an exception of any other class leaves \<^verbatim>\<open>BuildProcess\<close>
  unchanged. So no \<^verbatim>\<open>CalledProcessError\<close> ever leaves \<^verbatim>\<open>BuildProcess\<close>.
\<close>

theorem only_CalledProcessError_is_caught:
  "(fst (BuildProcess_try h cmd tr) = Some (Inl e) \<longrightarrow>
      fst (BuildProcess h cmd tr) =
        (if is_CalledProcessError e then Some (Inr PyNone) else Some (Inl e)))
   \<and> fst (BuildProcess h cmd tr) \<noteq> Some (Inl (CalledProcessError rc c))"
  by (cases "BuildProcess_try h cmd tr"; cases "fst (BuildProcess_try h cmd tr)")
     (auto simp: BuildProcess_def try_except_def py_bind_def py_return_def
           split: sum.splits if_splits)

theorem only_CalledProcessError_is_caught_witness:
  "fst (BuildProcess_try (posix_host []) ''true'' []) = Some (Inl FileNotFoundError)
   \<and> fst (BuildProcess (posix_host []) ''true'' []) = Some (Inl FileNotFoundError)
   \<and> fst (BuildProcess_try (exits_with [([''true''], 2)]) ''true'' [])
       = Some (Inl (CalledProcessError 2 ''true''))
   \<and> fst (BuildProcess (exits_with [([''true''], 2)]) ''true'' []) = Some (Inr PyNone)"
proof -
  have a: "fst (BuildProcess_try (posix_host []) ''true'' []) = Some (Inl FileNotFoundError)"
    by (simp add: BuildProcess_defs host_defs)
  have b: "fst (BuildProcess_try (exits_with [([''true''], 2)]) ''true'' [])
       = Some (Inl (CalledProcessError 2 ''true''))"
    by (simp add: BuildProcess_defs host_defs)
  show ?thesis
    using a b
      only_CalledProcessError_is_caught [of "posix_host []" "''true''" "[]" FileNotFoundError]
      only_CalledProcessError_is_caught
        [of "exits_with [([''true''], 2)]" "''true''" "[]" "CalledProcessError 2 ''true''"]
    by simp
qed

text \<open>
  Claim C8 as stated fails: on a host whose standard output is block-buffered (a pipe or a
  file) the notice is not written when \<^verbatim>\<open>print\<close> is called. Both children are
  created and reaped while it is still in the buffer, and the run ends without anything
  having been written.
\<close>

theorem notice_before_children_counterexample:
  "BuildProcess (block_buffered (exits_with [])) ''true'' [] =
     (Some (Inr PyNone),
      [Buffered (notice ''true''),
       Popen [''pwd''] None, Reaped [''pwd''] 0,
       Popen [''true''] None, Reaped [''true''] 0])
   \<and> Printed (notice ''true'')
       \<notin> set (snd (BuildProcess (block_buffered (exits_with [])) ''true'' []))"
  by (simp add: BuildProcess_defs host_defs)

text \<open>
  Claim C8, amended. On every host and for every command the worker performs its steps
  in the order of the program: it prints the notice, then runs the diagnostic, then
  executes the target; the events of a run are an initial part of that sequence. The
  notice is written to standard output before any child is created exactly on the
  hosts that write through at the call (a terminal); on a host that buffers, the notice
  is in the buffer while the children run. Where nothing fails, all five events occur.
\<close>

theorem BuildProcess_steps_in_order:
  "(\<exists>r rc r' rc'. prefix (snd (BuildProcess h cmd []))
       [if stdout_buffered h [] (notice cmd) then Buffered (notice cmd)
        else Printed (notice cmd),
        Popen [''pwd''] r, Reaped [''pwd''] rc,
        Popen [cmd] r', Reaped [cmd] rc'])
   \<and> snd (BuildProcess (exits_with []) cmd []) =
       [Printed (notice cmd),
        Popen [''pwd''] None, Reaped [''pwd''] 0,
        Popen [cmd] None, Reaped [cmd] 0]"
proof
  have "\<exists>r rc r' rc'. prefix (snd (BuildProcess h cmd []))
       [noticed h cmd, Popen [''pwd''] r, Reaped [''pwd''] rc, Popen [cmd] r', Reaped [cmd] rc']"
    by (auto simp: BuildProcess_defs prefix_Cons split: option.splits if_splits)
  then show "\<exists>r rc r' rc'. prefix (snd (BuildProcess h cmd []))
       [if stdout_buffered h [] (notice cmd) then Buffered (notice cmd)
        else Printed (notice cmd),
        Popen [''pwd''] r, Reaped [''pwd''] rc,
        Popen [cmd] r', Reaped [cmd] rc']"
    by (simp add: noticed_def stdout_event_def)
  show "snd (BuildProcess (exits_with []) cmd []) =
       [Printed (notice cmd),
        Popen [''pwd''] None, Reaped [''pwd''] 0,
        Popen [cmd] None, Reaped [cmd] 0]"
    by (simp add: BuildProcess_defs host_defs)
qed

section \<open>Properties of the dispatch\<close>

subsection \<open>When the worker function finishes\<close>

text \<open>
  \<^verbatim>\<open>check_call\<close> waits for the child it creates, so if every child exits every call
  finishes; and on a host on which only exit statuses can go wrong, \<^verbatim>\<open>BuildProcess\<close>
  returns \<^verbatim>\<open>None\<close>.
\<close>

lemma call_waits:
  assumes "\<forall>tr argv. wait_child h tr argv \<noteq> None"
  shows "fst (call h args tr) \<noteq> None"
proof (cases "exec_child h tr [args]")
  case (Some e)
  then show ?thesis by (simp add: call_def Popen_argv_def)
next
  case None
  from assms have "wait_child h (tr @ [Popen [args] None]) [args] \<noteq> None" by blast
  then obtain rc where "wait_child h (tr @ [Popen [args] None]) [args] = Some rc" by auto
  with None show ?thesis by (simp add: call_def Popen_argv_def Let_def)
qed

lemma call_children_exit:
  assumes "children_exit h"
  shows "\<exists>rc tr'. call h args tr = (Some (Inr rc), tr')"
proof -
  from assms have e: "exec_child h tr [args] = None"
    by (simp add: children_exit_def)
  from assms have "wait_child h (tr @ [Popen [args] None]) [args] \<noteq> None"
    unfolding children_exit_def by blast
  then obtain rc where "wait_child h (tr @ [Popen [args] None]) [args] = Some rc" by auto
  with e show ?thesis by (simp add: call_def Popen_argv_def Let_def)
qed

lemma check_call_children_exit:
  assumes "children_exit h"
  shows "(\<exists>tr'. check_call h args tr = (Some (Inr 0), tr'))
     \<or> (\<exists>rc tr'. check_call h args tr = (Some (Inl (CalledProcessError rc args)), tr'))"
proof -
  from call_children_exit [OF assms] obtain rc tr'
    where c: "call h args tr = (Some (Inr rc), tr')" by blast
  show ?thesis
  proof (cases "rc = 0")
    case True
    with c have "check_call h args tr = (Some (Inr 0), tr')"
      by (simp add: check_call_def py_bind_def py_return_def)
    then show ?thesis by blast
  next
    case False
    with c have "check_call h args tr = (Some (Inl (CalledProcessError rc args)), tr')"
      by (simp add: check_call_def py_bind_def py_raise_def)
    then show ?thesis by blast
  qed
qed

lemma py_bind_finishes:
  assumes "fst (m tr) \<noteq> None" and "\<And>v tr'. fst (f v tr') \<noteq> None"
  shows "fst (py_bind m f tr) \<noteq> None"
proof (cases "m tr")
  case (Pair r tr')
  with assms(1) obtain y where "r = Some y" by auto
  with Pair assms(2) show ?thesis
    by (cases y) (simp_all add: py_bind_def)
qed

lemma try_except_finishes:
  assumes "fst (body tr) \<noteq> None" and "\<And>tr'. fst (handler tr') \<noteq> None"
  shows "fst (try_except body catches handler tr) \<noteq> None"
proof (cases "body tr")
  case (Pair r tr')
  with assms(1) obtain y where "r = Some y" by auto
  with Pair assms(2) show ?thesis
    by (cases y) (simp_all add: try_except_def)
qed

lemma py_return_finishes: "fst (py_return v tr) \<noteq> None"
  by (simp add: py_return_def)

lemma check_call_waits:
  assumes "\<forall>tr argv. wait_child h tr argv \<noteq> None"
  shows "fst (check_call h args tr) \<noteq> None"
  unfolding check_call_def
  by (rule py_bind_finishes [OF call_waits [OF assms]])
     (simp add: py_raise_def py_return_def)

lemma BuildProcess_children_exit:
  assumes "children_exit h"
  shows "fst (BuildProcess h cmd []) = Some (Inr PyNone)"
proof -
  from assms have p: "print h (''BUILDING '' @ cmd) [] = (Some (Inr PyNone), [noticed h cmd])"
    by (simp add: print_def children_exit_def notice_def noticed_def)
  show ?thesis
    using check_call_children_exit [OF assms, of "''pwd''" "[noticed h cmd]"]
  proof
    assume "\<exists>tr'. check_call h ''pwd'' [noticed h cmd] = (Some (Inr 0), tr')"
    then obtain tr' where d: "check_call h ''pwd'' [noticed h cmd] = (Some (Inr 0), tr')" ..
    from check_call_children_exit [OF assms, of cmd tr'] p d show ?thesis
      by (auto simp: BuildProcess_def BuildProcess_try_def try_except_def py_bind_def py_return_def)
  next
    assume "\<exists>rc tr'. check_call h ''pwd'' [noticed h cmd]
               = (Some (Inl (CalledProcessError rc ''pwd'')), tr')"
    with p show ?thesis
      by (auto simp: BuildProcess_def BuildProcess_try_def try_except_def py_bind_def py_return_def)
  qed
qed

lemma BuildProcess_finished_reaps:
  "fst (BuildProcess h cmd []) \<noteq> None \<Longrightarrow> in_flight (snd (BuildProcess h cmd [])) [] = []"
  by (auto simp: BuildProcess_defs split: option.splits if_splits)

lemma BuildProcess_returns_if_children_exit:
  assumes "\<forall>tr argv. wait_child h tr argv \<noteq> None"
  shows "fst (BuildProcess h cmd []) \<noteq> None"
proof -
  have p: "fst (print h s tr) \<noteq> None" for s tr
    by (simp add: print_def split: option.splits)
  have "fst (BuildProcess_try h cmd tr) \<noteq> None" for tr
    unfolding BuildProcess_try_def
    by (intro py_bind_finishes p check_call_waits [OF assms] py_return_finishes)
  then show ?thesis
    unfolding BuildProcess_def
    by (intro py_bind_finishes try_except_finishes py_return_finishes)
qed

subsection \<open>Chunks\<close>

lemma mapstar_all_return:
  "\<forall>(i, x) \<in> set chunk. fst (f i x []) = Some (Inr v0) \<Longrightarrow>
     fst (mapstar f chunk) = Some (Inr (replicate (length chunk) v0))
     \<and> map fst (snd (mapstar f chunk)) = map snd chunk"
proof (induction chunk)
  case Nil
  then show ?case by simp
next
  case (Cons a chunk)
  obtain i x where a: "a = (i, x)" by (cases a)
  obtain r tr where run: "f i x [] = (r, tr)" by (cases "f i x []")
  from Cons.prems a run have r: "r = Some (Inr v0)" by simp
  from Cons have ih: "fst (mapstar f chunk) = Some (Inr (replicate (length chunk) v0))"
      "map fst (snd (mapstar f chunk)) = map snd chunk" by simp_all
  obtain rs log where rest: "mapstar f chunk = (rs, log)" by (cases "mapstar f chunk")
  with ih have "rs = Some (Inr (replicate (length chunk) v0))" "map fst log = map snd chunk"
    by simp_all
  with a run r rest show ?case by simp
qed

lemma mapstar_log_outcomes:
  "fst (mapstar f chunk) \<noteq> None \<Longrightarrow> (x, r, tr) \<in> set (snd (mapstar f chunk)) \<Longrightarrow> r \<noteq> None"
  by (induction f chunk rule: mapstar.induct)
     (auto split: prod.splits option.splits sum.splits)

lemma mapstar_log_runs:
  "(x, r, tr) \<in> set (snd (mapstar f chunk)) \<Longrightarrow> \<exists>i. (i, x) \<in> set chunk \<and> f i x [] = (r, tr)"
  by (induction f chunk rule: mapstar.induct)
     (auto split: prod.splits option.splits sum.splits)

lemma mapstar_finishes:
  "\<forall>(i, x) \<in> set chunk. fst (f i x []) \<noteq> None \<Longrightarrow> fst (mapstar f chunk) \<noteq> None"
proof (induction chunk)
  case Nil
  then show ?case by simp
next
  case (Cons a chunk)
  obtain i x where a: "a = (i, x)" by (cases a)
  from Cons.prems a have "fst (f i x []) \<noteq> None" by simp
  moreover from Cons have "fst (mapstar f chunk) \<noteq> None" by simp
  ultimately show ?case using a
    by (auto split: prod.splits option.splits sum.splits)
qed

lemma concat_get_tasks: "0 < n \<Longrightarrow> concat (get_tasks n xs) = xs"
proof (induction n xs rule: get_tasks.induct)
  case (1 n it)
  show ?case
  proof (cases "take n it = []")
    case True
    with "1.prems" have "it = []" by (simp add: take_eq_Nil)
    then show ?thesis by (simp add: get_tasks.simps)
  next
    case False
    with 1 have "concat (get_tasks n (drop n it)) = drop n it" by simp
    with False show ?thesis by (subst get_tasks.simps) simp
  qed
qed

lemma get_tasks_Nil: "get_tasks n [] = []"
  by (simp add: get_tasks.simps)

lemma map_chunksize_pos:
  assumes "0 < len"
  shows "0 < map_chunksize len procs"
proof (cases "len mod (procs * 4) = 0")
  case True
  have "len div (procs * 4) * (procs * 4) + len mod (procs * 4) = len"
    by (rule div_mult_mod_eq)
  with True assms have "len div (procs * 4) \<noteq> 0" by auto
  with True assms show ?thesis by (simp add: map_chunksize_def)
next
  case False
  with assms show ?thesis by (simp add: map_chunksize_def)
qed

lemma chunks_cover:
  "concat (get_tasks (map_chunksize (length xs) procs) (zip [0..<length xs] xs))
     = zip [0..<length xs] xs"
  by (cases "xs = []") (simp_all add: concat_get_tasks map_chunksize_pos get_tasks_Nil)


lemma batches_all_return:
  assumes "\<forall>b\<in>set bs. \<forall>(i, x)\<in>set b. fst (f i x []) = Some (Inr v0)"
  shows "None \<notin> set (map fst (map (mapstar f) bs))
     \<and> raised (map fst (map (mapstar f) bs)) = []
     \<and> returned (map fst (map (mapstar f) bs)) = replicate (length (concat bs)) v0
     \<and> map fst (concat (map snd (map (mapstar f) bs))) = map snd (concat bs)"
  using assms
proof (induction bs)
  case Nil
  then show ?case by simp
next
  case (Cons b bs)
  from Cons.prems have "\<forall>(i, x)\<in>set b. fst (f i x []) = Some (Inr v0)" by simp
  with mapstar_all_return [where f = f and chunk = b and ?v0.0 = v0]
  have b: "fst (mapstar f b) = Some (Inr (replicate (length b) v0))"
      "map fst (snd (mapstar f b)) = map snd b" by simp_all
  from Cons have ih: "None \<notin> set (map fst (map (mapstar f) bs))"
      "raised (map fst (map (mapstar f) bs)) = []"
      "returned (map fst (map (mapstar f) bs)) = replicate (length (concat bs)) v0"
      "map fst (concat (map snd (map (mapstar f) bs))) = map snd (concat bs)" by simp_all
  from b ih show ?case by (simp add: replicate_add)
qed

lemma zip_upt_items:
  "(i, x) \<in> set (zip [0..<length xs] xs) \<Longrightarrow> i < length xs \<and> x = xs ! i"
  by (auto simp: set_zip)

lemma batch_items:
  assumes "b \<in> set (get_tasks (map_chunksize (length xs) procs) (zip [0..<length xs] xs))"
    and "(i, x) \<in> set b"
  shows "i < length xs \<and> x = xs ! i"
proof -
  from assms have "(i, x) \<in> set (concat (get_tasks (map_chunksize (length xs) procs)
      (zip [0..<length xs] xs)))" by auto
  then show ?thesis by (simp only: chunks_cover zip_upt_items)
qed

lemma Pool_map_all_return:
  assumes "0 < procs" and "\<forall>i<length xs. fst (f i (xs ! i) []) = Some (Inr v0)"
  shows "\<exists>log. Pool_map procs f xs = Returns (replicate (length xs) v0) log \<and> map fst log = xs"
proof -
  let ?bs = "get_tasks (map_chunksize (length xs) procs) (zip [0..<length xs] xs)"
  have "\<forall>b\<in>set ?bs. \<forall>(i, x)\<in>set b. fst (f i x []) = Some (Inr v0)"
    using assms(2) by (auto dest: batch_items)
  with batches_all_return [where f = f and bs = ?bs and ?v0.0 = v0] assms(1) show ?thesis
    by (simp add: Pool_map_def Let_def chunks_cover image_image)
qed

subsection \<open>The pool and its size\<close>

text \<open>
  Claim C1 (evaluation on a single-core host). The script asks for
  \<^verbatim>\<open>cpu_count() - 1\<close> workers and nothing keeps that number at 1 or above: with one
  processor it calls \<^verbatim>\<open>Pool(0)\<close>, which raises \<^verbatim>\<open>ValueError\<close>, and no command is
  dispatched. The claim says that one worker is made.
\<close>

theorem main_single_core:
  "main 1 hosts = Inl (ValueError ''Number of processes must be at least 1'')"
  by (simp add: main_def Pool_def)

text \<open>From two processors on, the pool has \<open>max 1 (cpu_count - 1)\<close> workers.\<close>

lemma Pool_size:
  "2 \<le> cpu_count \<Longrightarrow> Pool (cpu_count - 1) = Inr (nat (max 1 (cpu_count - 1)))"
  by (simp add: Pool_def)

text \<open>
  What the script does on a POSIX host with four processors that has \<^verbatim>\<open>pwd\<close>, \<^verbatim>\<open>cp\<close>,
  \<^verbatim>\<open>npm\<close> and \<^verbatim>\<open>/bin/sh\<close>: both commands are dispatched, each application writes its notice
  and runs the diagnostic, each fails to execute a file named by its whole command
  string, and \<^verbatim>\<open>map\<close> raises \<^verbatim>\<open>FileNotFoundError\<close> in the main process.
\<close>

lemma get_tasks_pair: "get_tasks (Suc 0) [a, b] = [[a], [b]]"
  by (simp add: get_tasks.simps)

lemma main_on_posix_host:
  "main 4 (\<lambda>i. posix_host [''pwd'', ''cp'', ''npm'', ''/bin/sh'']) =
   Inr (Raises [FileNotFoundError, FileNotFoundError]
     [(commands ! 0, Some (Inl FileNotFoundError),
         [Printed (notice (commands ! 0)), Popen [''pwd''] None, Reaped [''pwd''] 0,
          Popen [commands ! 0] (Some FileNotFoundError)]),
      (commands ! 1, Some (Inl FileNotFoundError),
         [Printed (notice (commands ! 1)), Popen [''pwd''] None, Reaped [''pwd''] 0,
          Popen [commands ! 1] (Some FileNotFoundError)])])"
  by (simp add: main_def Pool_def Pool_map_def map_chunksize_def commands_def get_tasks_pair
        upt_rec BuildProcess_defs host_defs)

subsection \<open>One execution for each command\<close>








text \<open>
  The condition on the hosts is needed. An exception that \<^verbatim>\<open>BuildProcess\<close> does not catch
  ends the chunk of its application: with five commands on a pool of one worker the
  chunks hold two commands, and on a POSIX host, where every application fails with
  \<^verbatim>\<open>FileNotFoundError\<close>, the second command of each chunk is never attempted.
\<close>

lemma chunk_cut_short:
  "attempted (Pool_map 1 (\<lambda>i. BuildProcess (posix_host [''pwd'', ''cp'', ''npm'', ''/bin/sh'']))
      (commands @ commands @ [commands ! 0]))
   = Some [commands ! 0, commands ! 0, commands ! 0]"
  by (simp add: Pool_map_def map_chunksize_def commands_def get_tasks.simps
        upt_rec BuildProcess_defs host_defs)

subsection \<open>The value of the dispatch\<close>

text \<open>
  Claim C10. On hosts on which only exit statuses can go wrong, every application of
  \<^verbatim>\<open>BuildProcess\<close> returns \<^verbatim>\<open>None\<close>, whatever the statuses are; so \<^verbatim>\<open>map\<close> returns a list of
  \<^verbatim>\<open>None\<close>, one for each command in the order of the input, and two runs over the same
  commands return the same list, although every application of either run may meet a
  different host and the pools may differ in size.
\<close>

theorem dispatch_result_deterministic:
  assumes "0 < procs1" and "0 < procs2"
    and "\<forall>i<length cmds. children_exit (hosts1 i) \<and> children_exit (hosts2 i)"
  shows "(\<forall>i<length cmds. fst (BuildProcess (hosts1 i) (cmds ! i) []) = Some (Inr PyNone))
     \<and> result (Pool_map procs1 (\<lambda>i. BuildProcess (hosts1 i)) cmds)
         = Some (replicate (length cmds) PyNone)
     \<and> result (Pool_map procs2 (\<lambda>i. BuildProcess (hosts2 i)) cmds)
         = result (Pool_map procs1 (\<lambda>i. BuildProcess (hosts1 i)) cmds)"
proof -
  from assms(3) have 1: "\<forall>i<length cmds. fst (BuildProcess (hosts1 i) (cmds ! i) []) = Some (Inr PyNone)"
    and 2: "\<forall>i<length cmds. fst (BuildProcess (hosts2 i) (cmds ! i) []) = Some (Inr PyNone)"
    by (simp_all add: BuildProcess_children_exit)
  from 1 assms(1) Pool_map_all_return
    [where f = "\<lambda>i. BuildProcess (hosts1 i)" and xs = cmds and procs = procs1 and ?v0.0 = PyNone]
  obtain log1 where r1: "Pool_map procs1 (\<lambda>i. BuildProcess (hosts1 i)) cmds
      = Returns (replicate (length cmds) PyNone) log1" by auto
  from 2 assms(2) Pool_map_all_return
    [where f = "\<lambda>i. BuildProcess (hosts2 i)" and xs = cmds and procs = procs2 and ?v0.0 = PyNone]
  obtain log2 where r2: "Pool_map procs2 (\<lambda>i. BuildProcess (hosts2 i)) cmds
      = Returns (replicate (length cmds) PyNone) log2" by auto
  from 1 r1 r2 show ?thesis by simp
qed

theorem dispatch_result_deterministic_witness:
  "(0::nat) < 1 \<and> (0::nat) < 3
   \<and> children_exit (exits_with [([''pwd''], 1)])
   \<and> children_exit (exits_with [([commands ! 1], 2)])
   \<and> result (Pool_map 1 (\<lambda>i. BuildProcess (exits_with [([''pwd''], 1)])) commands)
       = Some [PyNone, PyNone]
   \<and> result (Pool_map 3 (\<lambda>i. BuildProcess (exits_with [([commands ! 1], 2)])) commands)
       = Some [PyNone, PyNone]"
proof -
  have h: "children_exit (exits_with [([''pwd''], 1)])"
    "children_exit (exits_with [([commands ! 1], 2)])"
    by (simp_all add: children_exit_def exits_with_def)
  have l: "replicate (length commands) PyNone = [PyNone, PyNone]"
    by (simp add: commands_def)
  show ?thesis
    using h l dispatch_result_deterministic
      [of 1 3 commands "\<lambda>i. exits_with [([''pwd''], 1)]" "\<lambda>i. exits_with [([commands ! 1], 2)]"]
    by simp
qed

subsection \<open>Nothing is left running\<close>

text \<open>
  Claim C9. When \<^verbatim>\<open>map\<close> comes back, by returning or by raising, every application of
  \<^verbatim>\<open>BuildProcess\<close> that was made has finished and has waited for every child it created:
  none is in flight. And it does come back if every child exits. (That \<^verbatim>\<open>map\<close> itself
  waits for every chunk is the library's contract, part of the model of \<^verbatim>\<open>Pool.map\<close>;
  that no child outlives its application is the script's doing, through
  \<^verbatim>\<open>check_call\<close>.)
\<close>

theorem dispatch_waits_for_every_command:
  "(\<forall>(c, r, tr) \<in> set (applications (Pool_map procs (\<lambda>i. BuildProcess (hosts i)) cmds)).
       r \<noteq> None \<and> in_flight tr [] = [])
   \<and> (0 < procs \<and> (\<forall>i tr argv. wait_child (hosts i) tr argv \<noteq> None) \<longrightarrow>
       Pool_map procs (\<lambda>i. BuildProcess (hosts i)) cmds \<noteq> Never_returns)"
proof
  let ?f = "\<lambda>i. BuildProcess (hosts i)"
  let ?bs = "get_tasks (map_chunksize (length cmds) procs) (zip [0..<length cmds] cmds)"
  show "\<forall>(c, r, tr) \<in> set (applications (Pool_map procs ?f cmds)). r \<noteq> None \<and> in_flight tr [] = []"
  proof (clarify)
    fix c r tr
    assume a: "(c, r, tr) \<in> set (applications (Pool_map procs ?f cmds))"
    then have fin: "None \<notin> set (map fst (map (mapstar ?f) ?bs))"
      and "(c, r, tr) \<in> set (concat (map snd (map (mapstar ?f) ?bs)))"
      by (auto simp: Pool_map_def Let_def split: if_splits)
    then obtain b where b: "b \<in> set ?bs" "(c, r, tr) \<in> set (snd (mapstar ?f b))" by auto
    with fin have "fst (mapstar ?f b) \<noteq> None" by force
    from mapstar_log_outcomes [OF this b(2)] have r: "r \<noteq> None" .
    from mapstar_log_runs [OF b(2)] obtain i where "BuildProcess (hosts i) c [] = (r, tr)" by blast
    with r BuildProcess_finished_reaps [of "hosts i" c] have "in_flight tr [] = []" by simp
    with r show "r \<noteq> None \<and> in_flight tr [] = []" by simp
  qed
  show "0 < procs \<and> (\<forall>i tr argv. wait_child (hosts i) tr argv \<noteq> None) \<longrightarrow>
       Pool_map procs ?f cmds \<noteq> Never_returns"
  proof
    assume a: "0 < procs \<and> (\<forall>i tr argv. wait_child (hosts i) tr argv \<noteq> None)"
    then have "fst (BuildProcess (hosts i) c []) \<noteq> None" for i c
      by (intro BuildProcess_returns_if_children_exit) blast
    then have "fst (mapstar ?f b) \<noteq> None" for b
      by (intro mapstar_finishes) auto
    then have fin: "\<forall>b. fst (mapstar ?f b) \<noteq> None" ..
    have "None \<notin> set (map fst (map (mapstar ?f) ?bs))"
    proof
      assume "None \<in> set (map fst (map (mapstar ?f) ?bs))"
      then obtain b where "None = fst (mapstar ?f b)" by auto
      then have "fst (mapstar ?f b) = None" by simp
      with fin show False by blast
    qed
    then show "Pool_map procs ?f cmds \<noteq> Never_returns"
      by (simp add: Pool_map_def Let_def image_image)
  qed
qed

theorem dispatch_waits_for_every_command_witness:
  "(0::nat) < 1
   \<and> (\<forall>i tr argv. wait_child (posix_host [''pwd'', ''cp'', ''npm'', ''/bin/sh'']) tr argv \<noteq> None)
   \<and> length (applications (Pool_map 1
         (\<lambda>i. BuildProcess (posix_host [''pwd'', ''cp'', ''npm'', ''/bin/sh''])) commands)) = 2
   \<and> list_all (\<lambda>(c, r, tr). r \<noteq> None \<and> in_flight tr [] = [])
         (applications (Pool_map 1
           (\<lambda>i. BuildProcess (posix_host [''pwd'', ''cp'', ''npm'', ''/bin/sh''])) commands))
   \<and> Pool_map 1 (\<lambda>i. BuildProcess (posix_host [''pwd'', ''cp'', ''npm'', ''/bin/sh''])) commands
       \<noteq> Never_returns"
proof -
  have w: "\<forall>i tr argv. wait_child (posix_host [''pwd'', ''cp'', ''npm'', ''/bin/sh'']) tr argv \<noteq> None"
    by (simp add: posix_host_def)
  have n: "length (applications (Pool_map 1
         (\<lambda>i. BuildProcess (posix_host [''pwd'', ''cp'', ''npm'', ''/bin/sh''])) commands)) = 2"
    by (simp add: Pool_map_def map_chunksize_def commands_def get_tasks_pair upt_rec
          BuildProcess_defs host_defs)
  show ?thesis
    using w n dispatch_waits_for_every_command
      [of 1 "\<lambda>i. posix_host [''pwd'', ''cp'', ''npm'', ''/bin/sh'']" commands]
    by (simp add: list_all_iff)
qed

end
